theory Spec2Isabelle
  imports Complex_Main "HOL-Library.AList" "HOL-Library.Sublist" "HOL-Library.Multiset"
    "HOL-Library.Product_Lexorder"
begin

section \<open>Heading inference over positioned text fragments (extractor.py)\<close>

text \<open>
  The embedding follows \<^verbatim>\<open>src/extractor.py\<close> function by function. Python floats
  (font sizes, coordinates, the page width) are modelled as rationals, so arithmetic is
  exact; Python strings are lists of characters, one \<^typ>\<open>char\<close> per code point below 256;
  a Python \<^verbatim>\<open>dict\<close> used as a struct is a record, and a \<^verbatim>\<open>dict\<close> used as a table is
  an association list in insertion order. Every \<^verbatim>\<open>raise\<close> is a value \<open>Inl e\<close>.
\<close>

subsection \<open>Builtins the source relies on\<close>

datatype error =
  RuntimeError | ValueError | IndexError | KeyError string | AttributeError | TypeError | OSError

text \<open>
  \<^verbatim>\<open>round(x, 2)\<close>: the nearest multiple of 1/100, a tie going to the even multiple.
\<close>

definition round2 :: "rat \<Rightarrow> rat" where
  "round2 x =
     (let y = x * 100; f = \<lfloor>y\<rfloor>; d = y - of_int f
      in if d < 1 / 2 then of_int f / 100
         else if 1 / 2 < d then of_int (f + 1) / 100
         else if even f then of_int f / 100 else of_int (f + 1) / 100)"

text \<open>
  \<^verbatim>\<open>str.isspace\<close> on the code points below 256: tab to carriage return, the four
  separators 28 to 31, the blank, NEL (133) and the no-break space (160).
\<close>

definition is_space :: "char \<Rightarrow> bool" where
  "is_space c =
     (let n = (of_char c :: nat)
      in (9 \<le> n \<and> n \<le> 13) \<or> (28 \<le> n \<and> n \<le> 32) \<or> n = 133 \<or> n = 160)"

text \<open>\<^verbatim>\<open>s.strip()\<close>: leading and trailing whitespace removed.\<close>

definition strip :: "string \<Rightarrow> string" where
  "strip s = rev (dropWhile is_space (rev (dropWhile is_space s)))"

text \<open>\<^verbatim>\<open>sep.join(xs)\<close>.\<close>

fun join :: "string \<Rightarrow> string list \<Rightarrow> string" where
  "join sep [] = []"
| "join sep [x] = x"
| "join sep (x # y # ys) = x @ sep @ join sep (y # ys)"

text \<open>
  \<^verbatim>\<open>collections.Counter(xs)\<close>: the distinct elements in order of first occurrence, each
  with its number of occurrences. \<^verbatim>\<open>c[k]\<close> is 0 for a key that is not there.
\<close>

fun counter_add :: "'a \<Rightarrow> ('a \<times> nat) list \<Rightarrow> ('a \<times> nat) list" where
  "counter_add x [] = [(x, 1)]"
| "counter_add x ((k, n) # kvs) =
     (if k = x then (k, n + 1) # kvs else (k, n) # counter_add x kvs)"

definition Counter :: "'a list \<Rightarrow> ('a \<times> nat) list" where
  "Counter xs = fold counter_add xs []"

definition counter_keys :: "('a \<times> nat) list \<Rightarrow> 'a list" where
  "counter_keys c = map fst c"

definition counter_get :: "('a \<times> nat) list \<Rightarrow> 'a \<Rightarrow> nat" where
  "counter_get c k = (case map_of c k of None \<Rightarrow> 0 | Some n \<Rightarrow> n)"

text \<open>\<^verbatim>\<open>sorted(xs, reverse=True)\<close> on a linear order.\<close>

definition sorted_desc :: "'a::linorder list \<Rightarrow> 'a list" where
  "sorted_desc xs = rev (sort xs)"

text \<open>\<^verbatim>\<open>max(xs)\<close>: raises \<^verbatim>\<open>ValueError\<close> on an empty sequence.\<close>

fun py_max :: "'a::linorder list \<Rightarrow> error + 'a" where
  "py_max [] = Inl ValueError"
| "py_max (x # xs) = Inr (fold (\<lambda>y m. if m < y then y else m) xs x)"

subsection \<open>Data\<close>

text \<open>
  The dictionaries built by \<^verbatim>\<open>extract_blocks\<close> (a fragment), by
  \<^verbatim>\<open>assign_heading_levels\<close> (a fragment with its level), by \<^verbatim>\<open>filter_headings\<close> (a
  heading) and by \<^verbatim>\<open>build_outline_json\<close> (the outline). Field names carry a prefix
  because a record field is a constant of the theory.
\<close>

record fragment =
  f_text :: string
  f_font_size :: rat
  f_font_name :: string
  f_x0 :: rat
  f_y0 :: rat
  f_page :: int

record labeled = fragment +
  f_level :: string

record heading =
  h_level :: string
  h_text :: string
  h_page :: int

record outline =
  o_title :: string
  o_outline :: "heading list"

text \<open>
  What PyMuPDF hands to \<^verbatim>\<open>extract_blocks\<close>: a document has metadata and pages, a page
  has blocks, a block may have the key \<^verbatim>\<open>lines\<close> (image blocks do not), a line has
  spans.
\<close>

record span =
  s_text :: string
  s_size :: rat
  s_font :: string
  s_origin :: "rat \<times> rat"

type_synonym block = "span list list option"

record doc =
  metadata :: "(string \<times> string) list"
  pages :: "block list list"

subsection \<open>extract_blocks\<close>

definition extract_block :: "nat \<Rightarrow> block \<Rightarrow> fragment option" where
  "extract_block page_num block =
     (case block of
        None \<Rightarrow> None
      | Some lines \<Rightarrow>
          if lines = [] then None
          else
            let clean = filter (\<lambda>span. strip (s_text span) \<noteq> []) (concat lines);
                block_text = map (\<lambda>span. strip (s_text span)) clean;
                font_sizes = map s_size clean
            in case clean of
                 [] \<Rightarrow> None
               | first_span # _ \<Rightarrow>
                   let text = strip (join '' '' block_text);
                       avg_font_size = sum_list font_sizes / of_nat (length font_sizes);
                       x0 = fst (s_origin first_span);
                       y0 = snd (s_origin first_span);
                       font_name = s_font first_span
                   in Some \<lparr>f_text = text, f_font_size = round2 avg_font_size,
                             f_font_name = font_name, f_x0 = x0, f_y0 = y0,
                             f_page = int page_num\<rparr>)"

definition extract_blocks :: "doc \<Rightarrow> fragment list" where
  "extract_blocks d =
     concat (map (\<lambda>(page_num, blocks). List.map_filter (extract_block page_num) blocks)
                 (enumerate 1 (pages d)))"

subsection \<open>rank_font_sizes\<close>

definition heading_levels :: "string list" where
  "heading_levels = [''H1'', ''H2'', ''H3'']"

definition rank_font_sizes :: "'a fragment_scheme list \<Rightarrow> (rat \<times> string) list" where
  "rank_font_sizes lines =
     (let font_sizes = map (\<lambda>line. round2 (f_font_size line)) lines;
          font_counter = Counter font_sizes;
          sorted_sizes = sorted_desc (counter_keys font_counter)
      in fold (\<lambda>(i, size) level_map. AList.update size (heading_levels ! i) level_map)
              (enumerate 0 (take 3 sorted_sizes)) [])"

subsection \<open>assign_heading_levels\<close>

fun assign_heading_levels ::
  "'a fragment_scheme list \<Rightarrow> (rat \<times> string) list \<Rightarrow> labeled list" where
  "assign_heading_levels [] font_level_map = []"
| "assign_heading_levels (line # lines) font_level_map =
     (let size_key = round2 (f_font_size line)
      in case map_of font_level_map size_key of
           Some lv \<Rightarrow>
             \<lparr>f_text = f_text line, f_font_size = size_key, f_font_name = f_font_name line,
              f_x0 = f_x0 line, f_y0 = f_y0 line, f_page = f_page line, f_level = lv\<rparr>
             # assign_heading_levels lines font_level_map
         | None \<Rightarrow> assign_heading_levels lines font_level_map)"

text \<open>The dictionary that the loop appends for a fragment whose rounded size is a key.\<close>

definition relabel :: "(rat \<times> string) list \<Rightarrow> 'a fragment_scheme \<Rightarrow> labeled" where
  "relabel m l =
     \<lparr>f_text = f_text l, f_font_size = round2 (f_font_size l), f_font_name = f_font_name l,
      f_x0 = f_x0 l, f_y0 = f_y0 l, f_page = f_page l,
      f_level = the (map_of m (round2 (f_font_size l)))\<rparr>"

subsection \<open>get_title_from_metadata\<close>

text \<open>\<^verbatim>\<open>doc.metadata.get("title", "").strip()\<close>, and \<^verbatim>\<open>None\<close> when that is empty.\<close>

definition get_title_from_metadata :: "doc \<Rightarrow> string option" where
  "get_title_from_metadata d =
     (let title = strip (case map_of (metadata d) ''title'' of None \<Rightarrow> [] | Some t \<Rightarrow> t)
      in if title \<noteq> [] then Some title else None)"

subsection \<open>infer_title_from_lines\<close>

definition first_page_lines :: "'a fragment_scheme list \<Rightarrow> 'a fragment_scheme list" where
  "first_page_lines lines =
     (let fp = filter (\<lambda>line. f_page line = 1) lines
      in if fp = [] then take 10 lines else fp)"

definition title_candidates :: "'a fragment_scheme list \<Rightarrow> rat \<Rightarrow> 'a fragment_scheme list" where
  "title_candidates fp max_size =
     filter (\<lambda>line. round2 (f_font_size line) = round2 max_size \<and> length (f_text line) \<le> 100) fp"

definition title_key :: "rat \<Rightarrow> 'a fragment_scheme \<Rightarrow> rat \<times> rat" where
  "title_key page_width l = (f_y0 l, \<bar>(f_x0 l + 10) - page_width / 2\<bar>)"

definition infer_title_from_lines :: "'a fragment_scheme list \<Rightarrow> rat \<Rightarrow> error + string" where
  "infer_title_from_lines lines page_width =
     (let fp = first_page_lines lines
      in case py_max (map f_font_size fp) of
           Inl e \<Rightarrow> Inl e
         | Inr max_size \<Rightarrow>
             (case sort_key (title_key page_width) (title_candidates fp max_size) of
                c # _ \<Rightarrow> Inr (strip (f_text c))
              | [] \<Rightarrow>
                  (case sort_key f_y0 fp of
                     top_line # _ \<Rightarrow> Inr (strip (f_text top_line))
                   | [] \<Rightarrow> Inl IndexError)))"

text \<open>The default of the parameter \<^verbatim>\<open>page_width\<close>, 595.2.\<close>

definition default_page_width :: rat where
  "default_page_width = 5952 / 10"

subsection \<open>filter_headings\<close>

fun filter_loop :: "(string \<times> nat) list \<Rightarrow> 'a labeled_scheme list \<Rightarrow> heading list" where
  "filter_loop text_counter [] = []"
| "filter_loop text_counter (line # lines) =
     (let text = strip (f_text line)
      in if length text > 120 then filter_loop text_counter lines
         else if counter_get text_counter text > 2 then filter_loop text_counter lines
         else if f_y0 line > 750 then filter_loop text_counter lines
         else \<lparr>h_level = f_level line, h_text = text, h_page = f_page line\<rparr>
              # filter_loop text_counter lines)"

definition filter_headings :: "'a labeled_scheme list \<Rightarrow> heading list" where
  "filter_headings labeled_lines =
     (let text_counter = Counter (map f_text labeled_lines)
      in filter_loop text_counter labeled_lines)"

subsection \<open>build_outline_json\<close>

definition build_outline_json :: "string \<Rightarrow> 'a heading_scheme list \<Rightarrow> outline" where
  "build_outline_json title headings =
     \<lparr>o_title = title,
      o_outline = map (\<lambda>heading. \<lparr>h_level = h_level heading, h_text = h_text heading,
                                   h_page = h_page heading\<rparr>) headings\<rparr>"

subsection \<open>process_pdf\<close>

text \<open>
  The world outside the pipeline: \<open>fitz_open\<close> is \<^verbatim>\<open>fitz.open\<close> (\<open>None\<close> when it
  raises), \<open>json_path output_dir file_path\<close> is the path of the output file, computed by
  \<^verbatim>\<open>os.path\<close>, and \<open>writable\<close> says whether \<^verbatim>\<open>os.makedirs\<close>, \<^verbatim>\<open>open\<close> and
  \<^verbatim>\<open>json.dump\<close> succeed at a path. The state is the set of files written, each with its
  content.
\<close>

record env =
  fitz_open :: "string \<Rightarrow> doc option"
  json_path :: "string \<Rightarrow> string \<Rightarrow> string"
  writable :: "string \<Rightarrow> bool"

type_synonym files = "(string \<times> outline) list"

text \<open>The last message that \<^verbatim>\<open>process_pdf\<close> prints tells how it ended.\<close>

datatype outcome =
  Skipped_no_blocks | Skipped_no_ranking | Skipped_no_headings | Skipped_all_filtered
| Saved string | Error_processing error

definition load_pdf :: "env \<Rightarrow> string \<Rightarrow> error + doc" where
  "load_pdf e file_path =
     (case fitz_open e file_path of None \<Rightarrow> Inl RuntimeError | Some d \<Rightarrow> Inr d)"

definition write_output_json :: "env \<Rightarrow> outline \<Rightarrow> string \<Rightarrow> files \<Rightarrow> error + files" where
  "write_output_json e data output_path fs =
     (if writable e output_path then Inr (AList.update output_path data fs) else Inl OSError)"

text \<open>Lines 375 to 380 of \<^verbatim>\<open>process_pdf\<close>: the title, from the metadata first.\<close>

definition resolve_title :: "doc \<Rightarrow> 'a fragment_scheme list \<Rightarrow> error + string" where
  "resolve_title d blocks =
     (case get_title_from_metadata d of
        Some title \<Rightarrow> Inr title
      | None \<Rightarrow> infer_title_from_lines blocks default_page_width)"

text \<open>
  The body of the \<^verbatim>\<open>try\<close>: an early \<^verbatim>\<open>return\<close> is a \<open>Skipped\<close> outcome, an
  exception is \<open>Inl\<close>.
\<close>

definition process_body :: "env \<Rightarrow> string \<Rightarrow> string \<Rightarrow> files \<Rightarrow> error + files \<times> outcome" where
  "process_body e file_path output_dir fs =
     (case load_pdf e file_path of
        Inl err \<Rightarrow> Inl err
      | Inr d \<Rightarrow>
          let blocks = extract_blocks d
          in if blocks = [] then Inr (fs, Skipped_no_blocks)
             else
               let font_level_map = rank_font_sizes blocks
               in if font_level_map = [] then Inr (fs, Skipped_no_ranking)
                  else
                    let labeled_blocks = assign_heading_levels blocks font_level_map
                    in if labeled_blocks = [] then Inr (fs, Skipped_no_headings)
                       else
                         (case resolve_title d blocks of
                            Inl err \<Rightarrow> Inl err
                          | Inr title \<Rightarrow>
                              let clean_headings = filter_headings labeled_blocks
                              in if clean_headings = [] then Inr (fs, Skipped_all_filtered)
                                 else
                                   let outline_data = build_outline_json title clean_headings;
                                       output_path = json_path e output_dir file_path
                                   in (case write_output_json e outline_data output_path fs of
                                         Inl err \<Rightarrow> Inl err
                                       | Inr fs' \<Rightarrow> Inr (fs', Saved output_path))))"

text \<open>
  \<^verbatim>\<open>except Exception\<close> prints the error and returns: the caller never sees an
  exception, and the files are as they were.
\<close>

definition process_pdf :: "env \<Rightarrow> string \<Rightarrow> string \<Rightarrow> files \<Rightarrow> files \<times> outcome" where
  "process_pdf e file_path output_dir fs =
     (case process_body e file_path output_dir fs of
        Inl err \<Rightarrow> (fs, Error_processing err)
      | Inr r \<Rightarrow> r)"

subsection \<open>filter_headings on raw dictionaries\<close>

text \<open>
  The records above fix which keys a dictionary has. Python does not: \<^verbatim>\<open>filter_headings\<close>
  takes any list of dictionaries and reads the keys \<^verbatim>\<open>text\<close>, \<^verbatim>\<open>y0\<close>, \<^verbatim>\<open>level\<close> and
  \<^verbatim>\<open>page\<close> of each, in that order. Here is the same code on dictionaries as association
  lists, where a missing key raises \<^verbatim>\<open>KeyError\<close>; a value is a string or a number.
\<close>

datatype pyval = PStr string | PNum rat

type_synonym pydict = "(string \<times> pyval) list"

definition getitem :: "pydict \<Rightarrow> string \<Rightarrow> error + pyval" where
  "getitem d k = (case map_of d k of None \<Rightarrow> Inl (KeyError k) | Some v \<Rightarrow> Inr v)"

text \<open>The generator \<^verbatim>\<open>line["text"] for line in labeled_lines\<close>.\<close>

fun texts_of :: "pydict list \<Rightarrow> error + pyval list" where
  "texts_of [] = Inr []"
| "texts_of (line # lines) =
     (case getitem line ''text'' of
        Inl e \<Rightarrow> Inl e
      | Inr v \<Rightarrow> (case texts_of lines of Inl e \<Rightarrow> Inl e | Inr vs \<Rightarrow> Inr (v # vs)))"

fun filter_loop_dict :: "(pyval \<times> nat) list \<Rightarrow> pydict list \<Rightarrow> error + pydict list" where
  "filter_loop_dict text_counter [] = Inr []"
| "filter_loop_dict text_counter (line # lines) =
     (case getitem line ''text'' of
        Inl e \<Rightarrow> Inl e
      | Inr (PNum _) \<Rightarrow> Inl AttributeError
      | Inr (PStr s) \<Rightarrow>
          let text = strip s
          in if length text > 120 then filter_loop_dict text_counter lines
             else if counter_get text_counter (PStr text) > 2
               then filter_loop_dict text_counter lines
             else
               (case getitem line ''y0'' of
                  Inl e \<Rightarrow> Inl e
                | Inr (PStr _) \<Rightarrow> Inl TypeError
                | Inr (PNum y0) \<Rightarrow>
                    if y0 > 750 then filter_loop_dict text_counter lines
                    else
                      (case getitem line ''level'' of
                         Inl e \<Rightarrow> Inl e
                       | Inr lv \<Rightarrow>
                           (case getitem line ''page'' of
                              Inl e \<Rightarrow> Inl e
                            | Inr pg \<Rightarrow>
                                (case filter_loop_dict text_counter lines of
                                   Inl e \<Rightarrow> Inl e
                                 | Inr filtered \<Rightarrow>
                                     Inr ([(''level'', lv), (''text'', PStr text), (''page'', pg)]
                                          # filtered))))))"

definition filter_headings_dict :: "pydict list \<Rightarrow> error + pydict list" where
  "filter_headings_dict labeled_lines =
     (case texts_of labeled_lines of
        Inl e \<Rightarrow> Inl e
      | Inr texts \<Rightarrow> filter_loop_dict (Counter texts) labeled_lines)"

text \<open>The dictionaries that the records stand for, keys in the order the source writes them.\<close>

definition labeled_dict :: "labeled \<Rightarrow> pydict" where
  "labeled_dict l =
     [(''text'', PStr (f_text l)), (''font_size'', PNum (f_font_size l)),
      (''font_name'', PStr (f_font_name l)), (''x0'', PNum (f_x0 l)), (''y0'', PNum (f_y0 l)),
      (''page'', PNum (of_int (f_page l))), (''level'', PStr (f_level l))]"

definition heading_dict :: "heading \<Rightarrow> pydict" where
  "heading_dict h =
     [(''level'', PStr (h_level h)), (''text'', PStr (h_text h)),
      (''page'', PNum (of_int (h_page h)))]"

subsection \<open>The heading filter as the specification words it\<close>

text \<open>
  The specification's rule: a labeled fragment is retained if and only if its trimmed text has
  at most 120 characters, its trimmed text occurs at most twice among the trimmed texts of all
  labeled fragments, and its \<^verbatim>\<open>y0\<close> is at most 750; the retained fragments keep their order
  and are projected to level, trimmed text and page.
\<close>

definition spec_retained :: "'a labeled_scheme list \<Rightarrow> 'a labeled_scheme \<Rightarrow> bool" where
  "spec_retained ls l =
     (length (strip (f_text l)) \<le> 120
      \<and> count_list (map (\<lambda>x. strip (f_text x)) ls) (strip (f_text l)) \<le> 2
      \<and> f_y0 l \<le> 750)"

definition heading_of :: "'a labeled_scheme \<Rightarrow> heading" where
  "heading_of l = \<lparr>h_level = f_level l, h_text = strip (f_text l), h_page = f_page l\<rparr>"

definition filter_headings_spec :: "'a labeled_scheme list \<Rightarrow> heading list" where
  "filter_headings_spec ls = map heading_of (filter (spec_retained ls) ls)"

text \<open>
  The three guards of the loop of \<^verbatim>\<open>filter_headings\<close>, for a given table of repetition
  counts, and the labeled fragments that pass them, with the text as the filter emits it.
\<close>

definition passes :: "(string \<times> nat) list \<Rightarrow> 'a labeled_scheme \<Rightarrow> bool" where
  "passes text_counter line =
     (\<not> length (strip (f_text line)) > 120
      \<and> \<not> counter_get text_counter (strip (f_text line)) > 2
      \<and> \<not> f_y0 line > 750)"


subsection \<open>Concrete inputs\<close>

text \<open>A fragment of a given font size; the other fields do not matter to the ranking.\<close>

definition ex_frag :: "rat \<Rightarrow> fragment" where
  "ex_frag sz =
     \<lparr>f_text = ''t'', f_font_size = sz, f_font_name = ''F'', f_x0 = 0, f_y0 = 0, f_page = 1\<rparr>"

text \<open>A table with two levels, a document whose metadata has a title, and the two fragments
  of the specification's title scenario.\<close>

definition ex_map :: "(rat \<times> string) list" where
  "ex_map = [(24, ''H1''), (18, ''H2'')]"

definition ex_titled :: doc where
  "ex_titled = \<lparr>metadata = [(''title'', ''Report 2024'')], pages = []\<rparr>"

definition ex_intro :: "fragment list" where
  "ex_intro =
     [\<lparr>f_text = ''Intro'', f_font_size = 24, f_font_name = ''F'', f_x0 = 250, f_y0 = 50, f_page = 1\<rparr>,
      \<lparr>f_text = ''Body text here'', f_font_size = 12, f_font_name = ''F'', f_x0 = 50, f_y0 = 80,
       f_page = 1\<rparr>]"






text \<open>
  A document of one page: an image block, and a text block whose only non-blank span is a page
  number in the footer region; an environment that opens it.
\<close>

definition ex_footer_doc :: doc where
  "ex_footer_doc =
     \<lparr>metadata = [],
      pages = [[None,
                Some [[\<lparr>s_text = '' Page 1 '', s_size = 9, s_font = ''F'', s_origin = (72, 780)\<rparr>,
                       \<lparr>s_text = ''  '', s_size = 30, s_font = ''F'', s_origin = (90, 780)\<rparr>]]]]\<rparr>"

definition ex_env :: env where
  "ex_env =
     \<lparr>fitz_open = (\<lambda>p. if p = ''in/a.pdf'' then Some ex_footer_doc else None),
      json_path = (\<lambda>output_dir file_path. output_dir @ ''/a.json''),
      writable = (\<lambda>p. True)\<rparr>"


section \<open>Properties\<close>

subsection \<open>Whitespace stripping\<close>

lemma dropWhile_self: "xs = [] \<or> \<not> P (hd xs) \<Longrightarrow> dropWhile P xs = xs"
  by (cases xs) auto

lemma hd_rev_dropWhile_rev:
  "rev (dropWhile P (rev xs)) \<noteq> [] \<Longrightarrow> hd (rev (dropWhile P (rev xs))) = hd xs"
proof (induction xs rule: rev_induct)
  case Nil
  then show ?case by simp
next
  case (snoc x xs)
  then show ?case by (cases xs) (auto split: if_splits)
qed

lemma strip_idem: "strip (strip s) = strip s"
proof -
  let ?t = "dropWhile is_space s"
  let ?u = "rev (dropWhile is_space (rev ?t))"
  have u: "strip s = ?u" by (simp add: strip_def)
  have "?u = [] \<or> \<not> is_space (hd ?u)"
  proof (cases "?u = []")
    case False
    then have "hd ?u = hd ?t" by (rule hd_rev_dropWhile_rev)
    moreover from False have "?t \<noteq> []" by (cases "?t = []") simp_all
    then have "\<not> is_space (hd ?t)" by (rule hd_dropWhile)
    ultimately show ?thesis by simp
  qed simp
  then have 1: "dropWhile is_space ?u = ?u" by (rule dropWhile_self)
  have "dropWhile is_space (rev ?u) = rev ?u"
    by (simp add: dropWhile_idem)
  with 1 show ?thesis
    unfolding u by (simp add: strip_def)
qed

subsection \<open>Counter\<close>

lemma map_of_counter_add:
  "map_of (counter_add x c) k = (if k = x then Some (counter_get c x + 1) else map_of c k)"
  by (induction x c rule: counter_add.induct) (auto simp: counter_get_def)

lemma counter_get_counter_add:
  "counter_get (counter_add x c) k = (if k = x then counter_get c x + 1 else counter_get c k)"
  by (simp add: counter_get_def map_of_counter_add)

lemma counter_get_fold:
  "counter_get (fold counter_add xs c) k = counter_get c k + count_list xs k"
  by (induction xs arbitrary: c) (auto simp: counter_get_counter_add)

lemma counter_get_Counter: "counter_get (Counter xs) k = count_list xs k"
proof -
  have "counter_get [] k = 0" by (simp add: counter_get_def)
  then show ?thesis by (simp add: Counter_def counter_get_fold)
qed

lemma keys_counter_add:
  "map fst (counter_add x c) = (if x \<in> set (map fst c) then map fst c else map fst c @ [x])"
  by (induction x c rule: counter_add.induct) auto

lemma keys_fold:
  "distinct (map fst c) \<Longrightarrow>
   distinct (map fst (fold counter_add xs c)) \<and>
   set (map fst (fold counter_add xs c)) = set (map fst c) \<union> set xs"
proof (induction xs arbitrary: c)
  case Nil
  then show ?case by simp
next
  case (Cons x xs)
  have "distinct (map fst (counter_add x c))"
    using Cons.prems by (simp add: keys_counter_add)
  from Cons.IH[OF this] show ?case
    by (auto simp: keys_counter_add split: if_splits)
qed

lemma distinct_counter_keys: "distinct (counter_keys (Counter xs))"
  using keys_fold[of "[]" xs] by (simp add: counter_keys_def Counter_def)

lemma set_counter_keys: "set (counter_keys (Counter xs)) = set xs"
  using keys_fold[of "[]" xs] by (simp add: counter_keys_def Counter_def)

subsection \<open>rank_font_sizes\<close>

lemma update_fresh: "k \<notin> fst ` set al \<Longrightarrow> AList.update k v al = al @ [(k, v)]"
  by (induction al) auto

text \<open>On distinct keys the loop of assignments builds the table entry by entry.\<close>

lemma fold_update_enumerate:
  "distinct ks \<Longrightarrow> set ks \<inter> fst ` set acc = {} \<Longrightarrow>
   fold (\<lambda>(i, k) m. AList.update k (f i) m) (enumerate n ks) acc
   = acc @ map (\<lambda>(i, k). (k, f i)) (enumerate n ks)"
proof (induction ks arbitrary: n acc)
  case Nil
  then show ?case by simp
next
  case (Cons k ks)
  have fresh: "k \<notin> fst ` set acc" using Cons.prems by auto
  have "set ks \<inter> fst ` set (acc @ [(k, f n)]) = {}"
    using Cons.prems by auto
  with Cons.IH[of "acc @ [(k, f n)]" "Suc n"] Cons.prems fresh show ?case
    by (simp add: update_fresh)
qed

lemma sorted_desc_set_eq:
  "distinct xs \<Longrightarrow> distinct ys \<Longrightarrow> set xs = set ys \<Longrightarrow> sorted_desc xs = sorted_desc ys"
  unfolding sorted_desc_def
  by (simp add: sorted_distinct_set_unique)

lemma rank_font_sizes_eq:
  "rank_font_sizes lines =
     map (\<lambda>(i, k). (k, heading_levels ! i))
       (enumerate 0 (take 3 (sorted_desc (counter_keys
          (Counter (map (\<lambda>line. round2 (f_font_size line)) lines))))))"
proof -
  let ?S = "sorted_desc (counter_keys (Counter (map (\<lambda>line. round2 (f_font_size line)) lines)))"
  have "distinct ?S" by (simp add: sorted_desc_def distinct_counter_keys)
  then have "distinct (take 3 ?S)" by simp
  from fold_update_enumerate[OF this, of "[]" "\<lambda>i. heading_levels ! i" 0]
  show ?thesis by (simp add: rank_font_sizes_def Let_def)
qed

text \<open>
  C1. When the fragments have at least three distinct rounded font sizes,
  \<^verbatim>\<open>rank_font_sizes\<close> returns exactly three entries, for H1, H2 and H3 in this order, and
  the size of H1 is strictly greater than the size of H2, which is strictly greater than the
  size of H3. On the empty fragment list it returns the empty table.
\<close>

theorem rank_font_sizes_top3:
  "(3 \<le> card (set (map (\<lambda>l. round2 (f_font_size l)) lines)) \<longrightarrow>
      (\<exists>a b c. rank_font_sizes lines = [(a, ''H1''), (b, ''H2''), (c, ''H3'')]
               \<and> b < a \<and> c < b))
   \<and> rank_font_sizes [] = []"
proof (intro conjI impI)
  let ?R = "map (\<lambda>l. round2 (f_font_size l)) lines"
  let ?K = "counter_keys (Counter ?R)"
  let ?S = "sorted_desc ?K"
  assume three: "3 \<le> card (set ?R)"
  have dK: "distinct ?K" by (rule distinct_counter_keys)
  have sK: "set ?K = set ?R" by (rule set_counter_keys)
  have "length ?S = card (set ?R)"
    using dK sK by (simp add: sorted_desc_def distinct_card[symmetric])
  with three have len: "3 \<le> length ?S" by simp
  then obtain a b c rest where S: "?S = a # b # c # rest"
    by (cases ?S; cases "tl ?S"; cases "tl (tl ?S)") auto
  have "sorted_wrt (<) (sort ?K)"
    using dK by (simp add: strict_sorted_iff)
  then have "sorted_wrt (\<lambda>x y. y < x) ?S"
    by (simp add: sorted_desc_def sorted_wrt_rev)
  with S have ord: "b < a" "c < b" by auto
  have "rank_font_sizes lines = [(a, ''H1''), (b, ''H2''), (c, ''H3'')]"
    unfolding rank_font_sizes_eq S by (simp add: heading_levels_def enumerate_eq_zip upt_rec)
  with ord
  show "\<exists>a b c. rank_font_sizes lines = [(a, ''H1''), (b, ''H2''), (c, ''H3'')] \<and> b < a \<and> c < b"
    by blast
next
  show "rank_font_sizes [] = []"
    by (simp add: rank_font_sizes_def Counter_def counter_keys_def sorted_desc_def)
qed

theorem rank_font_sizes_top3_witness:
  "3 \<le> card (set (map (\<lambda>l. round2 (f_font_size l))
                     [ex_frag 12, ex_frag 24, ex_frag 18, ex_frag 12, ex_frag 30]))
   \<and> (\<exists>a b c. rank_font_sizes [ex_frag 12, ex_frag 24, ex_frag 18, ex_frag 12, ex_frag 30]
                 = [(a, ''H1''), (b, ''H2''), (c, ''H3'')] \<and> b < a \<and> c < b)"
proof -
  have h: "3 \<le> card (set (map (\<lambda>l. round2 (f_font_size l))
                             [ex_frag 12, ex_frag 24, ex_frag 18, ex_frag 12, ex_frag 30]))"
    by code_simp
  from rank_font_sizes_top3 [of "[ex_frag 12, ex_frag 24, ex_frag 18, ex_frag 12, ex_frag 30]"] h
  show ?thesis by blast
qed

text \<open>
  C8. Two fragment lists with the same multiset of rounded font sizes, in particular two
  lists that are permutations of each other, get the same table from \<^verbatim>\<open>rank_font_sizes\<close>.
\<close>

theorem rank_font_sizes_order_independent:
  "mset (map (\<lambda>l. round2 (f_font_size l)) xs) = mset (map (\<lambda>l. round2 (f_font_size l)) ys)
   \<Longrightarrow> rank_font_sizes xs = rank_font_sizes ys"
proof -
  assume "mset (map (\<lambda>l. round2 (f_font_size l)) xs)
        = mset (map (\<lambda>l. round2 (f_font_size l)) ys)"
  then have "set (map (\<lambda>l. round2 (f_font_size l)) xs)
           = set (map (\<lambda>l. round2 (f_font_size l)) ys)"
    by (rule mset_eq_setD)
  then have "sorted_desc (counter_keys (Counter (map (\<lambda>l. round2 (f_font_size l)) xs)))
           = sorted_desc (counter_keys (Counter (map (\<lambda>l. round2 (f_font_size l)) ys)))"
    by (intro sorted_desc_set_eq distinct_counter_keys) (simp only: set_counter_keys)
  then show ?thesis by (simp only: rank_font_sizes_eq)
qed

theorem rank_font_sizes_order_independent_witness:
  "mset (map (\<lambda>l. round2 (f_font_size l)) [ex_frag 12, ex_frag 24, ex_frag 18])
     = mset (map (\<lambda>l. round2 (f_font_size l)) [ex_frag 18, ex_frag 12, ex_frag 24])
   \<and> rank_font_sizes [ex_frag 12, ex_frag 24, ex_frag 18]
     = rank_font_sizes [ex_frag 18, ex_frag 12, ex_frag 24]"
  using rank_font_sizes_order_independent
          [of "[ex_frag 12, ex_frag 24, ex_frag 18]" "[ex_frag 18, ex_frag 12, ex_frag 24]"]
  by (simp add: ex_frag_def round2_def Let_def)

subsection \<open>assign_heading_levels\<close>

lemma round2_hundredth: "\<exists>k::int. round2 x = of_int k / 100"
proof -
  have "round2 x = of_int \<lfloor>x * 100\<rfloor> / 100 \<or> round2 x = of_int (\<lfloor>x * 100\<rfloor> + 1) / 100"
    unfolding round2_def Let_def by (simp only: split: if_splits) blast
  then show ?thesis by blast
qed

lemma round2_idem: "round2 (round2 x) = round2 x"
proof -
  obtain k :: int where k: "round2 x = of_int k / 100"
    using round2_hundredth by blast
  have "round2 (of_int k / 100) = of_int k / 100"
    by (simp add: round2_def Let_def)
  with k show ?thesis by (simp only:)
qed

lemma assign_heading_levels_eq:
  "assign_heading_levels lines m =
     map (relabel m) (filter (\<lambda>l. map_of m (round2 (f_font_size l)) \<noteq> None) lines)"
  by (induction lines) (auto simp: Let_def relabel_def split: option.splits)

lemma truncate_relabel:
  "fragment.truncate (relabel m l) = (fragment.truncate l)\<lparr>f_font_size := round2 (f_font_size l)\<rparr>"
  by (simp add: relabel_def fragment.truncate_def labeled.defs fragment.defs)

text \<open>
  C5. The output of \<^verbatim>\<open>assign_heading_levels\<close> is, in input order, a sub-list of the input
  fragments, each with its font size rounded and its level added (so it is a subsequence of
  the input itself when the sizes are already rounded, as the extractor leaves them); the
  rounded font size of every emitted item is a key of the table and its level is the table's
  value for that key; with an empty table the output is empty.
\<close>

theorem assign_heading_levels_labels:
  "(\<exists>ls. subseq ls lines \<and>
         map fragment.truncate (assign_heading_levels lines m)
         = map (\<lambda>l. (fragment.truncate l)\<lparr>f_font_size := round2 (f_font_size l)\<rparr>) ls)
   \<and> ((\<forall>l \<in> set lines. round2 (f_font_size l) = f_font_size l) \<longrightarrow>
        subseq (map fragment.truncate (assign_heading_levels lines m)) (map fragment.truncate lines))
   \<and> (\<forall>out \<in> set (assign_heading_levels lines m).
        map_of m (round2 (f_font_size out)) = Some (f_level out))
   \<and> assign_heading_levels lines [] = []"
proof (intro conjI impI ballI)
  let ?P = "\<lambda>l. map_of m (round2 (f_font_size l)) \<noteq> None"
  show "\<exists>ls. subseq ls lines \<and>
         map fragment.truncate (assign_heading_levels lines m)
         = map (\<lambda>l. (fragment.truncate l)\<lparr>f_font_size := round2 (f_font_size l)\<rparr>) ls"
  proof (intro exI conjI)
    show "subseq (filter ?P lines) lines" by simp
    show "map fragment.truncate (assign_heading_levels lines m)
         = map (\<lambda>l. (fragment.truncate l)\<lparr>f_font_size := round2 (f_font_size l)\<rparr>) (filter ?P lines)"
      by (simp add: assign_heading_levels_eq truncate_relabel)
  qed
next
  assume r: "\<forall>l \<in> set lines. round2 (f_font_size l) = f_font_size l"
  let ?P = "\<lambda>l. map_of m (round2 (f_font_size l)) \<noteq> None"
  have "map fragment.truncate (assign_heading_levels lines m) = map fragment.truncate (filter ?P lines)"
    using r by (simp add: assign_heading_levels_eq relabel_def fragment.truncate_def)
  moreover have "subseq (map fragment.truncate (filter ?P lines)) (map fragment.truncate lines)"
    by (intro subseq_map) simp
  ultimately show "subseq (map fragment.truncate (assign_heading_levels lines m)) (map fragment.truncate lines)"
    by simp
next
  fix out assume "out \<in> set (assign_heading_levels lines m)"
  then obtain l where "l \<in> set lines" "out = relabel m l"
    "map_of m (round2 (f_font_size l)) \<noteq> None"
    by (auto simp: assign_heading_levels_eq)
  then show "map_of m (round2 (f_font_size out)) = Some (f_level out)"
    by (auto simp: relabel_def round2_idem)
next
  show "assign_heading_levels lines [] = []"
    by (simp add: assign_heading_levels_eq)
qed

theorem assign_heading_levels_labels_witness:
  "subseq (map fragment.truncate (assign_heading_levels [ex_frag 24, ex_frag 12, ex_frag 18] ex_map))
          (map fragment.truncate [ex_frag 24, ex_frag 12, ex_frag 18])
   \<and> map f_level (assign_heading_levels [ex_frag 24, ex_frag 12, ex_frag 18] ex_map) = [''H1'', ''H2'']"
proof -
  have h: "\<forall>l \<in> set [ex_frag 24, ex_frag 12, ex_frag 18]. round2 (f_font_size l) = f_font_size l"
    by (simp add: ex_frag_def round2_def Let_def)
  have v: "map f_level (assign_heading_levels [ex_frag 24, ex_frag 12, ex_frag 18] ex_map) = [''H1'', ''H2'']"
    by (simp add: ex_frag_def ex_map_def round2_def Let_def)
  from assign_heading_levels_labels [of "[ex_frag 24, ex_frag 12, ex_frag 18]" ex_map] h
  have "subseq (map fragment.truncate (assign_heading_levels [ex_frag 24, ex_frag 12, ex_frag 18] ex_map))
          (map fragment.truncate [ex_frag 24, ex_frag 12, ex_frag 18])"
    by blast
  with v show ?thesis by simp
qed

subsection \<open>build_outline_json\<close>

text \<open>
  C7. \<^verbatim>\<open>build_outline_json\<close> is a lossless merge: the title of the result is the given title,
  and its outline has the levels, texts and pages of the given headings, one item per heading,
  in the given order; on headings that have no other field the outline is the given list.
\<close>

theorem build_outline_json_lossless:
  "o_title (build_outline_json title hs) = title
   \<and> map h_level (o_outline (build_outline_json title hs)) = map h_level hs
   \<and> map h_text (o_outline (build_outline_json title hs)) = map h_text hs
   \<and> map h_page (o_outline (build_outline_json title hs)) = map h_page hs
   \<and> build_outline_json title (headings :: heading list) = \<lparr>o_title = title, o_outline = headings\<rparr>"
proof -
  have "map (\<lambda>heading. \<lparr>h_level = h_level heading, h_text = h_text heading,
                            h_page = h_page heading\<rparr>) headings = headings"
    by (induction headings) simp_all
  then show ?thesis by (simp add: build_outline_json_def comp_def)
qed

subsection \<open>The title\<close>

lemma first_page_lines_nonempty: "lines \<noteq> [] \<Longrightarrow> first_page_lines lines \<noteq> []"
  by (cases lines) (auto simp: first_page_lines_def Let_def)

lemma first_page_lines_Nil: "first_page_lines [] = []"
  by (simp add: first_page_lines_def)

lemma sort_key_Nil_iff: "sort_key f xs = [] \<longleftrightarrow> xs = []"
  by (metis length_sort length_0_conv)

lemma infer_title_nonempty:
  "lines \<noteq> [] \<Longrightarrow> \<exists>t. infer_title_from_lines lines pw = Inr t"
proof -
  assume "lines \<noteq> []"
  then have fp: "first_page_lines lines \<noteq> []" by (rule first_page_lines_nonempty)
  then obtain x xs where "first_page_lines lines = x # xs" by (cases "first_page_lines lines") auto
  then obtain mx where mx: "py_max (map f_font_size (first_page_lines lines)) = Inr mx" by simp
  from fp have "sort_key f_y0 (first_page_lines lines) \<noteq> []" by (simp add: sort_key_Nil_iff)
  then show ?thesis
    unfolding infer_title_from_lines_def Let_def mx
    by (auto split: list.splits)
qed

lemma infer_title_Nil: "infer_title_from_lines [] pw = Inl ValueError"
  by (simp add: infer_title_from_lines_def first_page_lines_Nil)

text \<open>
  C10. On the empty fragment list \<^verbatim>\<open>infer_title_from_lines\<close> raises (the maximum of an
  empty collection, \<^verbatim>\<open>ValueError\<close>); it returns a string exactly when its input is not
  empty.
\<close>

theorem infer_title_from_lines_returns_iff:
  fixes lines :: "'a fragment_scheme list"
  shows "infer_title_from_lines ([] :: 'a fragment_scheme list) pw = Inl ValueError
   \<and> ((\<exists>t. infer_title_from_lines lines pw = Inr t) \<longleftrightarrow> lines \<noteq> [])"
proof -
  have "(\<exists>t. infer_title_from_lines lines pw = Inr t) \<longleftrightarrow> lines \<noteq> []"
  proof
    assume "\<exists>t. infer_title_from_lines lines pw = Inr t"
    then show "lines \<noteq> []" by (auto simp: infer_title_Nil)
  next
    assume "lines \<noteq> []" then show "\<exists>t. infer_title_from_lines lines pw = Inr t"
      by (rule infer_title_nonempty)
  qed
  then show ?thesis by (simp add: infer_title_Nil)
qed

theorem infer_title_from_lines_returns_iff_witness:
  "(\<exists>t. infer_title_from_lines ex_intro default_page_width = Inr t) \<and> ex_intro \<noteq> []"
  using infer_title_from_lines_returns_iff [of default_page_width ex_intro]
  by (simp add: ex_intro_def)

text \<open>
  C6. The title comes from the metadata first: when the metadata title is not empty after
  trimming, \<^verbatim>\<open>get_title_from_metadata\<close> returns the trimmed value and the title that
  \<^verbatim>\<open>process_pdf\<close> resolves is that value, whatever the fragments are.
\<close>

theorem resolve_title_metadata_first:
  "map_of (metadata d) ''title'' = Some t \<Longrightarrow> strip t \<noteq> [] \<Longrightarrow>
   get_title_from_metadata d = Some (strip t) \<and> resolve_title d blocks = Inr (strip t)"
  by (simp add: resolve_title_def get_title_from_metadata_def)

theorem resolve_title_metadata_first_witness:
  "map_of (metadata ex_titled) ''title'' = Some ''Report 2024''
   \<and> strip ''Report 2024'' \<noteq> []
   \<and> (\<forall>blocks :: fragment list. resolve_title ex_titled blocks = Inr ''Report 2024'')"
proof -
  have m: "map_of (metadata ex_titled) ''title'' = Some ''Report 2024''"
    by (simp add: ex_titled_def)
  have s: "strip ''Report 2024'' = ''Report 2024''"
    by (simp add: strip_def is_space_def)
  then have n: "strip ''Report 2024'' \<noteq> []" by simp
  have "resolve_title ex_titled blocks = Inr ''Report 2024''" for blocks :: "fragment list"
    using resolve_title_metadata_first [OF m n, of blocks] s by simp
  with m n show ?thesis by simp
qed





subsection \<open>filter_headings\<close>

text \<open>The loop is a filter followed by a projection.\<close>

lemma filter_loop_eq: "filter_loop c ls = map heading_of (filter (passes c) ls)"
  by (induction ls) (auto simp: Let_def passes_def heading_of_def)

lemma filter_headings_eq:
  "filter_headings ls = map heading_of (filter (passes (Counter (map f_text ls))) ls)"
  by (simp add: filter_headings_def filter_loop_eq)

lemma passes_Counter:
  "passes (Counter xs) l \<longleftrightarrow>
     length (strip (f_text l)) \<le> 120 \<and> count_list xs (strip (f_text l)) \<le> 2 \<and> f_y0 l \<le> 750"
  by (auto simp: passes_def counter_get_Counter)

lemma passes_trimmed:
  assumes "\<forall>l \<in> set ls. strip (f_text l) = f_text l"
  shows "passes (Counter (map f_text ls)) l = spec_retained ls l"
proof -
  from assms have "map (\<lambda>x. strip (f_text x)) ls = map f_text ls"
    by (intro map_cong refl) simp
  then show ?thesis by (simp only: passes_Counter spec_retained_def)
qed












text \<open>
  On the dictionaries of well-formed labeled fragments the code read on raw dictionaries
  raises nothing and returns the dictionaries of the headings computed on records.
\<close>

lemma getitem_labeled_dict:
  "getitem (labeled_dict l) ''text'' = Inr (PStr (f_text l))"
  "getitem (labeled_dict l) ''y0'' = Inr (PNum (f_y0 l))"
  "getitem (labeled_dict l) ''level'' = Inr (PStr (f_level l))"
  "getitem (labeled_dict l) ''page'' = Inr (PNum (of_int (f_page l)))"
  by (simp_all add: getitem_def labeled_dict_def)

lemma texts_of_labeled_dict:
  "texts_of (map labeled_dict ls) = Inr (map (\<lambda>l. PStr (f_text l)) ls)"
  by (induction ls) (simp_all add: getitem_labeled_dict)

lemma count_list_PStr: "count_list (map PStr xs) (PStr k) = count_list xs k"
  by (induction xs) auto

lemma filter_loop_dict_labeled:
  assumes "\<And>t. counter_get c' (PStr t) = counter_get c t"
  shows "filter_loop_dict c' (map labeled_dict ls) = Inr (map heading_dict (filter_loop c ls))"
  by (induction ls) (simp_all add: getitem_labeled_dict assms Let_def heading_dict_def)

lemma filter_headings_dict_labeled:
  "filter_headings_dict (map labeled_dict ls) = Inr (map heading_dict (filter_headings ls))"
proof -
  have "counter_get (Counter (map (\<lambda>l. PStr (f_text l)) ls)) (PStr t)
        = counter_get (Counter (map f_text ls)) t" for t
    using count_list_PStr[of "map f_text ls" t]
    by (simp add: counter_get_Counter comp_def)
  then show ?thesis
    by (simp add: filter_headings_dict_def texts_of_labeled_dict filter_headings_def
                  filter_loop_dict_labeled)
qed

text \<open>
  The texts that \<^verbatim>\<open>extract_blocks\<close> produces are trimmed, and labeling keeps them, so
  in the pipeline the filter is the specification's rule.
\<close>

lemma extract_block_trimmed:
  "extract_block n b = Some f \<Longrightarrow> strip (f_text f) = f_text f"
  by (auto simp: extract_block_def Let_def strip_idem split: option.splits if_splits list.splits)

lemma extract_blocks_trimmed:
  "f \<in> set (extract_blocks d) \<Longrightarrow> strip (f_text f) = f_text f"
  by (auto simp: extract_blocks_def List.map_filter_def dest: extract_block_trimmed)

lemma assign_heading_levels_text:
  "l \<in> set (assign_heading_levels lines m) \<Longrightarrow> f_text l \<in> f_text ` set lines"
  by (auto simp: assign_heading_levels_eq relabel_def)

lemma pipeline_filter_is_spec:
  "filter_headings (assign_heading_levels (extract_blocks d) m)
   = filter_headings_spec (assign_heading_levels (extract_blocks d) m)"
proof -
  have "\<forall>l \<in> set (assign_heading_levels (extract_blocks d) m). strip (f_text l) = f_text l"
    using assign_heading_levels_text extract_blocks_trimmed by fastforce
  then have "passes (Counter (map f_text (assign_heading_levels (extract_blocks d) m)))
             = spec_retained (assign_heading_levels (extract_blocks d) m)"
    by (intro ext passes_trimmed)
  then show ?thesis by (simp only: filter_headings_eq filter_headings_spec_def)
qed

subsection \<open>process_pdf\<close>

lemma resolve_title_total:
  "blocks \<noteq> [] \<Longrightarrow> \<exists>t. resolve_title d blocks = Inr t"
  using infer_title_nonempty[of blocks default_page_width]
  by (auto simp: resolve_title_def split: option.splits)

text \<open>
  C9. Once the document is loaded, each EmptyContent condition (no block extracted, an empty
  font ranking, no fragment labeled, every heading filtered out) makes \<^verbatim>\<open>process_pdf\<close>
  return with the files as they were, after a message that the document is skipped: no output
  file is written and no error is reported.
\<close>

theorem process_pdf_skips_empty_content:
  assumes "fitz_open e file_path = Some d"
    and "extract_blocks d = []
         \<or> rank_font_sizes (extract_blocks d) = []
         \<or> assign_heading_levels (extract_blocks d) (rank_font_sizes (extract_blocks d)) = []
         \<or> filter_headings
              (assign_heading_levels (extract_blocks d) (rank_font_sizes (extract_blocks d))) = []"
  shows "fst (process_pdf e file_path output_dir fs) = fs
         \<and> snd (process_pdf e file_path output_dir fs)
             \<in> {Skipped_no_blocks, Skipped_no_ranking, Skipped_no_headings, Skipped_all_filtered}"
proof -
  let ?B = "extract_blocks d"
  have l: "load_pdf e file_path = Inr d" using assms(1) by (simp add: load_pdf_def)
  show ?thesis
  proof (cases "?B = []")
    case True
    then show ?thesis by (simp add: process_pdf_def process_body_def l)
  next
    case False
    then obtain t where t: "resolve_title d ?B = Inr t"
      using resolve_title_total by blast
    with False assms(2) show ?thesis
      by (auto simp: process_pdf_def process_body_def l Let_def)
  qed
qed

theorem process_pdf_skips_empty_content_witness:
  "fitz_open ex_env ''in/a.pdf'' = Some ex_footer_doc
   \<and> extract_blocks ex_footer_doc \<noteq> []
   \<and> filter_headings (assign_heading_levels (extract_blocks ex_footer_doc)
                        (rank_font_sizes (extract_blocks ex_footer_doc))) = []
   \<and> fst (process_pdf ex_env ''in/a.pdf'' ''out'' []) = []
   \<and> snd (process_pdf ex_env ''in/a.pdf'' ''out'' [])
       \<in> {Skipped_no_blocks, Skipped_no_ranking, Skipped_no_headings, Skipped_all_filtered}"
proof -
  have o: "fitz_open ex_env ''in/a.pdf'' = Some ex_footer_doc"
    by (simp add: ex_env_def)
  have b: "extract_blocks ex_footer_doc \<noteq> []"
    by code_simp
  have f: "filter_headings (assign_heading_levels (extract_blocks ex_footer_doc)
                        (rank_font_sizes (extract_blocks ex_footer_doc))) = []"
    by code_simp
  from process_pdf_skips_empty_content [OF o, of "''out''" "[]"] f o b show ?thesis
    by blast
qed

text \<open>
  Of the four conditions only the first and the last can happen: a non-empty list of blocks
  has a non-empty ranking, and the fragments of the largest size are labeled.
\<close>

lemma rank_font_sizes_keys:
  "map fst (rank_font_sizes lines)
   = take 3 (sorted_desc (counter_keys (Counter (map (\<lambda>l. round2 (f_font_size l)) lines))))"
  by (simp add: rank_font_sizes_eq comp_def case_prod_unfold enumerate_eq_zip)

lemma rank_font_sizes_nonempty: "lines \<noteq> [] \<Longrightarrow> rank_font_sizes lines \<noteq> []"
proof -
  assume "lines \<noteq> []"
  then have "set (counter_keys (Counter (map (\<lambda>l. round2 (f_font_size l)) lines))) \<noteq> {}"
    by (simp add: set_counter_keys)
  then have "sorted_desc (counter_keys (Counter (map (\<lambda>l. round2 (f_font_size l)) lines))) \<noteq> []"
    by (simp add: sorted_desc_def sort_key_Nil_iff)
  then have "map fst (rank_font_sizes lines) \<noteq> []"
    by (simp add: rank_font_sizes_keys)
  then show ?thesis by simp
qed

lemma assign_ranked_nonempty:
  "lines \<noteq> [] \<Longrightarrow> assign_heading_levels lines (rank_font_sizes lines) \<noteq> []"
proof -
  assume ne: "lines \<noteq> []"
  then obtain k v rest where r: "rank_font_sizes lines = (k, v) # rest"
    using rank_font_sizes_nonempty[OF ne] by (cases "rank_font_sizes lines") auto
  then have "k \<in> set (map fst (rank_font_sizes lines))" by simp
  then have "k \<in> set (sorted_desc (counter_keys (Counter (map (\<lambda>l. round2 (f_font_size l)) lines))))"
    unfolding rank_font_sizes_keys by (rule in_set_takeD)
  then have "k \<in> set (map (\<lambda>l. round2 (f_font_size l)) lines)"
    by (simp add: sorted_desc_def set_counter_keys)
  then obtain l where l: "l \<in> set lines" "round2 (f_font_size l) = k" by auto
  have "map_of (rank_font_sizes lines) k \<noteq> None" by (simp add: r)
  with l have "filter (\<lambda>l. map_of (rank_font_sizes lines) (round2 (f_font_size l)) \<noteq> None) lines \<noteq> []"
    by (auto simp: filter_empty_conv)
  then show ?thesis by (simp add: assign_heading_levels_eq)
qed

lemma process_pdf_never_ranking_skips:
  "snd (process_pdf e file_path output_dir fs) \<noteq> Skipped_no_ranking
   \<and> snd (process_pdf e file_path output_dir fs) \<noteq> Skipped_no_headings"
proof (cases "load_pdf e file_path")
  case (Inl err)
  then show ?thesis by (simp add: process_pdf_def process_body_def)
next
  case (Inr d)
  show ?thesis
  proof (cases "extract_blocks d = []")
    case True
    with Inr show ?thesis by (simp add: process_pdf_def process_body_def)
  next
    case False
    then obtain t where t: "resolve_title d (extract_blocks d) = Inr t"
      using resolve_title_total by blast
    from False have "rank_font_sizes (extract_blocks d) \<noteq> []"
      "assign_heading_levels (extract_blocks d) (rank_font_sizes (extract_blocks d)) \<noteq> []"
      by (simp_all add: rank_font_sizes_nonempty assign_ranked_nonempty)
    with Inr False t show ?thesis
      by (auto simp: process_pdf_def process_body_def Let_def write_output_json_def)
  qed
qed


end
